theory Spec2Isabelle
  imports Main "HOL-Library.AList"
begin

section \<open>Values, elements and result rows\<close>

text \<open>
  Python values as far as \<^verbatim>\<open>session.py\<close> looks at them: identities, endpoint
  references and field values are opaque, except that \<^verbatim>\<open>None\<close> is a value of its own.
\<close>

datatype pyval = PyNone | PyInt int | PyStr string | PyRef nat

type_synonym addr = nat

type_synonym mapping = "(string \<times> string) list"

text \<open>
  An element object. The session tests attributes with \<^verbatim>\<open>hasattr\<close>, so an attribute is
  an option: \<open>None\<close> is "the object has no such attribute", \<open>Some PyNone\<close> is "the
  attribute exists and holds Python's None". \<open>type_attr\<close> is \<^verbatim>\<open>__type__\<close>,
  \<open>id_attr\<close> is \<^verbatim>\<open>id\<close>, \<open>mapping_attr\<close> is \<^verbatim>\<open>__mapping__\<close> (database property
  name, object field name).
\<close>

record obj =
  type_attr :: string
  id_attr :: "pyval option"
  source :: "pyval option"
  target :: "pyval option"
  mapping_attr :: mapping
  attrs :: "(string \<times> pyval) list"

record row =
  rid :: pyval
  rprops :: "(string \<times> pyval) list"

datatype error =
    PyException string
  | NotImplementedError
  | TypeError
  | IndexError
  | KeyError
  | AttributeError
  | TransportError

text \<open>The two plain exceptions of \<^verbatim>\<open>save\<close> and \<^verbatim>\<open>save_edge\<close>, under the spec's names.\<close>

abbreviation UnknownElementKind :: error where
  "UnknownElementKind \<equiv> PyException ''Unknown element type''"

abbreviation MissingEndpoints :: error where
  "MissingEndpoints \<equiv> PyException ''Edges require source/target vetices''"

section \<open>Traversals, the engine and the session state\<close>

datatype intent =
    GetVertexById | GetEdgeById
  | AddVertex | AddEdge
  | UpdateVertex | UpdateEdge
  | RemoveVertex | RemoveEdge

text \<open>
  A traversal description: what the query builder was asked for and the element as it was
  when the builder read it.
\<close>

datatype traversal = Traversal intent obj

type_synonym script = string
type_synonym bindings = "(string \<times> pyval) list"
type_synonym request = "script \<times> bindings \<times> pyval"

text \<open>
  What the remote party does with one submission: \<open>Refused\<close> makes \<^verbatim>\<open>engine.submit\<close>
  raise, \<open>Lost\<close> makes \<^verbatim>\<open>fetch_data\<close> raise, \<open>Data rows\<close> is the result payload.
  \<open>meanwhile\<close> lists the elements that other cooperative tasks pass to \<^verbatim>\<open>add\<close> of this
  session while the session is suspended in the \<^verbatim>\<open>await\<close> of that submission.
\<close>

datatype outcome = Refused | Lost | Data "row list"

record reply =
  outcome :: outcome
  meanwhile :: "addr list"

datatype stream = Stream outcome

text \<open>
  The collaborators a session is built on: \<^verbatim>\<open>engine._features['transactions']\<close>,
  \<^verbatim>\<open>query.parse_traversal\<close>, and the remote endpoint as a function of the requests it
  has received so far (the last one is the request being answered).
\<close>

record env =
  transactions :: bool
  parse_traversal :: "traversal \<Rightarrow> script \<times> bindings"
  remote :: "request list \<Rightarrow> reply"

text \<open>
  The calls the session makes, in order. This is a log kept beside the program state; no
  function below reads it.
\<close>

datatype call =
    Added addr
  | Saved addr
  | Built traversal
  | Executed traversal
  | Fetched
  | Mapped row addr
  | Finalized

text \<open>
  The fields of \<^verbatim>\<open>Session\<close> (\<^verbatim>\<open>_use_session\<close>, \<^verbatim>\<open>_session\<close>, \<^verbatim>\<open>_pending\<close>,
  \<^verbatim>\<open>_current\<close>), the store of element objects, the requests the engine has been sent and
  the log of calls.
\<close>

record state =
  use_session :: bool
  session_handle :: pyval
  pending :: "addr list"
  current :: "pyval \<rightharpoonup> addr"
  heap :: "addr \<Rightarrow> obj"
  sent :: "request list"
  calls :: "call list"

type_synonym 'a act = "state \<Rightarrow> (error + 'a) \<times> state"

definition return :: "'a \<Rightarrow> 'a act" where
  "return x s = (Inr x, s)"

definition raise :: "error \<Rightarrow> 'a act" where
  "raise e s = (Inl e, s)"

text \<open>Sequencing: an exception of the first action ends the computation, keeping the state.\<close>

definition and_then :: "'a act \<Rightarrow> ('a \<Rightarrow> 'b act) \<Rightarrow> 'b act" where
  "and_then m f s = (case m s of (Inl e, s') \<Rightarrow> (Inl e, s') | (Inr x, s') \<Rightarrow> f x s')"

definition log_call :: "call \<Rightarrow> state \<Rightarrow> state" where
  "log_call c s = s\<lparr>calls := calls s @ [c]\<rparr>"

section \<open>Collaborators\<close>

text \<open>
  Modelled from the spec: the query builder (\<^verbatim>\<open>goblin.query\<close>) is not part of the
  sources at hand. The spec: it "returns a Traversal Description given an element; pure,
  no I/O". The description is the intent together with the element read.
\<close>

definition build :: "intent \<Rightarrow> addr \<Rightarrow> traversal act" where
  "build i element s =
     (Inr (Traversal i (heap s element)), log_call (Built (Traversal i (heap s element))) s)"

abbreviation "get_vertex_by_id \<equiv> build GetVertexById"
abbreviation "get_edge_by_id \<equiv> build GetEdgeById"
abbreviation "add_vertex \<equiv> build AddVertex"
abbreviation "add_edge \<equiv> build AddEdge"
abbreviation "update_vertex \<equiv> build UpdateVertex"
abbreviation "update_edge \<equiv> build UpdateEdge"
abbreviation "query_remove_vertex \<equiv> build RemoveVertex"
abbreviation "query_remove_edge \<equiv> build RemoveEdge"

text \<open>
  Modelled from the spec: the mapper (\<^verbatim>\<open>goblin.mapper\<close>) is not part of the sources at
  hand. The spec: it "merges one result row onto \<^verbatim>\<open>element\<close> per \<^verbatim>\<open>mapping\<close>; returns
  the mutated element", and after a save the element's identity "equals the
  server-assigned id from the create result". So the object at the given address takes the
  row's id and the row's mapped properties, and the same address is returned.
\<close>

definition merge_row :: "row \<Rightarrow> mapping \<Rightarrow> obj \<Rightarrow> obj" where
  "merge_row r m ob =
     ob\<lparr>id_attr := Some (rid r),
        attrs := foldl (\<lambda>fs (db_name, v).
                    case map_of m db_name of
                      None \<Rightarrow> fs
                    | Some name \<Rightarrow> AList.update name v fs) (attrs ob) (rprops r)\<rparr>"

definition map_vertex_to_ogm :: "row \<Rightarrow> addr \<Rightarrow> mapping \<Rightarrow> addr act" where
  "map_vertex_to_ogm r element m s =
     (Inr element,
      log_call (Mapped r element) (s\<lparr>heap := (heap s)(element := merge_row r m (heap s element))\<rparr>))"

definition map_edge_to_ogm :: "row \<Rightarrow> addr \<Rightarrow> mapping \<Rightarrow> addr act" where
  "map_edge_to_ogm r element m s =
     (Inr element,
      log_call (Mapped r element) (s\<lparr>heap := (heap s)(element := merge_row r m (heap s element))\<rparr>))"

section \<open>The session\<close>

text \<open>\<^verbatim>\<open>__init__\<close>: the keyword argument \<^verbatim>\<open>use_session\<close> is not used.\<close>

definition init :: "bool \<Rightarrow> (addr \<Rightarrow> obj) \<Rightarrow> state" where
  "init use_session_arg h =
     \<lparr>use_session = False, session_handle = PyNone, pending = [], current = Map.empty,
      heap = h, sent = [], calls = []\<rparr>"

definition add :: "addr list \<Rightarrow> state \<Rightarrow> state" where
  "add elements s =
     fold (\<lambda>elem s. log_call (Added elem) (s\<lparr>pending := pending s @ [elem]\<rparr>)) elements s"

text \<open>
  \<^verbatim>\<open>engine.submit\<close>: the request reaches the remote party; while the session awaits it,
  other tasks may \<^verbatim>\<open>add\<close> elements.
\<close>

definition submit :: "env \<Rightarrow> script \<Rightarrow> bindings \<Rightarrow> pyval \<Rightarrow> stream act" where
  "submit E scr bnd sess s =
     (let req = (scr, bnd, sess);
          r = remote E (sent s @ [req]);
          s1 = add (meanwhile r) (s\<lparr>sent := sent s @ [req]\<rparr>)
      in case outcome r of
           Refused \<Rightarrow> (Inl TransportError, s1)
         | out \<Rightarrow> (Inr (Stream out), s1))"

fun fetch_data :: "stream \<Rightarrow> (row list) act" where
  "fetch_data (Stream out) s =
     (case out of
        Data rows \<Rightarrow> (Inr rows, log_call Fetched s)
      | _ \<Rightarrow> (Inl TransportError, log_call Fetched s))"

text \<open>
  \<^verbatim>\<open>self._use_session()\<close>: the attribute is the bool stored by \<^verbatim>\<open>__init__\<close>, and
  calling a bool raises TypeError.
\<close>

definition call_use_session :: "bool act" where
  "call_use_session = raise TypeError"

text \<open>
  \<^verbatim>\<open>self._wrap_in_tx(script)\<close>: the method is declared without a script parameter (and
  its body raises NotImplementedError), so the call raises TypeError.
\<close>

definition wrap_in_tx :: "script \<Rightarrow> script act" where
  "wrap_in_tx scr = raise TypeError"

text \<open>\<^verbatim>\<open>tx\<close>: the body raises NotImplementedError; the call is logged as \<open>Finalized\<close>.\<close>

definition tx :: "unit act" where
  "tx s = (Inl NotImplementedError, log_call Finalized s)"

definition execute_traversal :: "env \<Rightarrow> traversal \<Rightarrow> stream act" where
  "execute_traversal E trav s =
     (let (scr, bnd) = parse_traversal E trav
      in and_then
           (if transactions E
            then and_then call_use_session
                   (\<lambda>b. if \<not> b then wrap_in_tx scr else return scr)
            else return scr)
           (\<lambda>scr'. \<lambda>s'. submit E scr' bnd (session_handle s') s')
           (log_call (Executed trav) s))"

definition save_element ::
  "env \<Rightarrow> addr \<Rightarrow> (addr \<Rightarrow> traversal act) \<Rightarrow> (addr \<Rightarrow> traversal act) \<Rightarrow>
   (addr \<Rightarrow> traversal act) \<Rightarrow> (row \<Rightarrow> addr \<Rightarrow> mapping \<Rightarrow> addr act) \<Rightarrow> addr act" where
  "save_element E element get_func create_func update_func mapper_func =
     and_then
       (\<lambda>s. if id_attr (heap s element) \<noteq> None
            then and_then (get_func element) (\<lambda>trav.
                 and_then (execute_traversal E trav) (\<lambda>strm.
                 and_then (fetch_data strm) (\<lambda>result.
                   if result = [] then create_func element
                   else update_func element))) s
            else create_func element s)
       (\<lambda>trav.
          and_then (execute_traversal E trav) (\<lambda>strm.
          and_then (fetch_data strm) (\<lambda>result.
            case result of
              [] \<Rightarrow> raise IndexError
            | r # _ \<Rightarrow> (\<lambda>s. mapper_func r element (mapping_attr (heap s element)) s))))"

text \<open>\<^verbatim>\<open>self.current[result.id] = result\<close>\<close>

definition cache :: "addr \<Rightarrow> addr act" where
  "cache result s =
     (case id_attr (heap s result) of
        None \<Rightarrow> (Inl AttributeError, s)
      | Some k \<Rightarrow> (Inr result, s\<lparr>current := (current s)(k \<mapsto> result)\<rparr>))"

definition save_vertex :: "env \<Rightarrow> addr \<Rightarrow> addr act" where
  "save_vertex E element =
     and_then
       (save_element E element get_vertex_by_id add_vertex update_vertex map_vertex_to_ogm)
       cache"

definition save_edge :: "env \<Rightarrow> addr \<Rightarrow> addr act" where
  "save_edge E element s =
     (if \<not> (source (heap s element) \<noteq> None \<and> target (heap s element) \<noteq> None)
      then raise MissingEndpoints s
      else and_then
             (save_element E element get_edge_by_id add_edge update_edge map_edge_to_ogm)
             cache s)"

definition save :: "env \<Rightarrow> addr \<Rightarrow> addr act" where
  "save E element s0 =
     (let s = log_call (Saved element) s0
      in if type_attr (heap s element) = ''vertex'' then save_vertex E element s
         else if type_attr (heap s element) = ''edge'' then save_edge E element s
         else raise UnknownElementKind s)"

text \<open>
  \<^verbatim>\<open>flush\<close>: the loop runs while the queue is not empty, and other tasks may refill the
  queue during every save, so the loop need not end: \<open>None\<close> is "does not return".
\<close>

partial_function (option) flush :: "env \<Rightarrow> state \<Rightarrow> ((error + unit) \<times> state) option" where
  "flush E s =
     (case pending s of
        [] \<Rightarrow> Some (Inr (), s)
      | elem # rest \<Rightarrow>
          (case save E elem (s\<lparr>pending := rest\<rparr>) of
             (Inl e, s') \<Rightarrow> Some (Inl e, s')
           | (Inr _, s') \<Rightarrow> flush E s'))"

declare flush.simps [code]

text \<open>\<^verbatim>\<open>del self.current[element.id]\<close>\<close>

definition uncache :: "addr \<Rightarrow> unit act" where
  "uncache element s =
     (case id_attr (heap s element) of
        None \<Rightarrow> (Inl AttributeError, s)
      | Some k \<Rightarrow>
          (if current s k = None then (Inl KeyError, s)
           else (Inr (), s\<lparr>current := (current s)(k := None)\<rparr>)))"

definition remove_element :: "env \<Rightarrow> addr \<Rightarrow> traversal \<Rightarrow> (row list) act" where
  "remove_element E element trav =
     and_then (execute_traversal E trav) (\<lambda>strm.
     and_then (fetch_data strm) (\<lambda>result.
     and_then (uncache element) (\<lambda>_. return result)))"

definition remove_vertex :: "env \<Rightarrow> addr \<Rightarrow> (row list) act" where
  "remove_vertex E element =
     and_then (query_remove_vertex element) (\<lambda>trav. remove_element E element trav)"

definition remove_edge :: "env \<Rightarrow> addr \<Rightarrow> (row list) act" where
  "remove_edge E element =
     and_then (query_remove_edge element) (\<lambda>trav. remove_element E element trav)"

text \<open>\<^verbatim>\<open>get_vertex\<close> and \<^verbatim>\<open>get_edge\<close> return the mapped element, or Python's None.\<close>

definition get_vertex :: "env \<Rightarrow> addr \<Rightarrow> (addr option) act" where
  "get_vertex E element =
     and_then (get_vertex_by_id element) (\<lambda>trav.
     and_then (execute_traversal E trav) (\<lambda>strm.
     and_then (fetch_data strm) (\<lambda>result.
       case result of
         [] \<Rightarrow> return None
       | r # _ \<Rightarrow>
           and_then (\<lambda>s. map_vertex_to_ogm r element (mapping_attr (heap s element)) s)
             (\<lambda>vertex. return (Some vertex)))))"

definition get_edge :: "env \<Rightarrow> addr \<Rightarrow> (addr option) act" where
  "get_edge E element =
     and_then (get_edge_by_id element) (\<lambda>trav.
     and_then (execute_traversal E trav) (\<lambda>strm.
     and_then (fetch_data strm) (\<lambda>result.
       case result of
         [] \<Rightarrow> return None
       | r # _ \<Rightarrow>
           and_then (\<lambda>s. map_edge_to_ogm r element (mapping_attr (heap s element)) s)
             (\<lambda>vertex. return (Some vertex)))))"

text \<open>
  \<^verbatim>\<open>commit\<close>: after the flush, the transaction test calls \<^verbatim>\<open>self._use_session()\<close> when
  the backend has transactions; the last statement raises NotImplementedError.
\<close>

definition commit :: "env \<Rightarrow> state \<Rightarrow> ((error + unit) \<times> state) option" where
  "commit E s =
     (case flush E s of
        None \<Rightarrow> None
      | Some (Inl e, s1) \<Rightarrow> Some (Inl e, s1)
      | Some (Inr _, s1) \<Rightarrow>
          Some (and_then
                  (if transactions E
                   then and_then call_use_session (\<lambda>b. if b then tx else return ())
                   else return ())
                  (\<lambda>_. raise NotImplementedError) s1))"

definition rollback :: "unit act" where
  "rollback = raise NotImplementedError"

section \<open>Reading the log\<close>

fun saved_of :: "call list \<Rightarrow> addr list" where
  "saved_of [] = []"
| "saved_of (Saved a # cs) = a # saved_of cs"
| "saved_of (_ # cs) = saved_of cs"

fun added_of :: "call list \<Rightarrow> addr list" where
  "added_of [] = []"
| "added_of (Added a # cs) = a # added_of cs"
| "added_of (_ # cs) = added_of cs"

fun built_of :: "call list \<Rightarrow> traversal list" where
  "built_of [] = []"
| "built_of (Built t # cs) = t # built_of cs"
| "built_of (_ # cs) = built_of cs"

fun executed_of :: "call list \<Rightarrow> traversal list" where
  "executed_of [] = []"
| "executed_of (Executed t # cs) = t # executed_of cs"
| "executed_of (_ # cs) = executed_of cs"

fun mapped_of :: "call list \<Rightarrow> (row \<times> addr) list" where
  "mapped_of [] = []"
| "mapped_of (Mapped r a # cs) = (r, a) # mapped_of cs"
| "mapped_of (_ # cs) = mapped_of cs"

fun fetches_of :: "call list \<Rightarrow> nat" where
  "fetches_of [] = 0"
| "fetches_of (Fetched # cs) = Suc (fetches_of cs)"
| "fetches_of (_ # cs) = fetches_of cs"

fun finalized_of :: "call list \<Rightarrow> nat" where
  "finalized_of [] = 0"
| "finalized_of (Finalized # cs) = Suc (finalized_of cs)"
| "finalized_of (_ # cs) = finalized_of cs"

text \<open>The request that \<^verbatim>\<open>execute_traversal\<close> hands to the engine for a traversal.\<close>

definition request_of :: "env \<Rightarrow> traversal \<Rightarrow> state \<Rightarrow> request" where
  "request_of E trav s =
     (fst (parse_traversal E trav), snd (parse_traversal E trav), session_handle s)"

text \<open>The reply of the remote party to a traversal executed in state \<open>s\<close>.\<close>

definition answer :: "env \<Rightarrow> traversal \<Rightarrow> state \<Rightarrow> reply" where
  "answer E trav s = remote E (sent s @ [request_of E trav s])"

text \<open>
  The state in which \<^verbatim>\<open>execute_traversal\<close> resumes after a submission: the call is
  logged, the request has been sent, and what other tasks added meanwhile is queued.
\<close>

definition awaited :: "env \<Rightarrow> traversal \<Rightarrow> state \<Rightarrow> state" where
  "awaited E trav s =
     add (meanwhile (answer E trav s))
       (log_call (Executed trav) s\<lparr>sent := sent s @ [request_of E trav s]\<rparr>)"

text \<open>
  The other tasks settle: during one request they add at most \<open>K\<close> elements, and once the
  remote party has received more than \<open>N\<close> requests they add none.
\<close>

definition settles :: "env \<Rightarrow> nat \<Rightarrow> nat \<Rightarrow> bool" where
  "settles E K N \<longleftrightarrow>
     (\<forall>reqs. length (meanwhile (remote E reqs)) \<le> K \<and>
             (N < length reqs \<longrightarrow> meanwhile (remote E reqs) = []))"

text \<open>
  \<open>s'\<close> continues \<open>s\<close> without a save: the log has grown by calls among which there is no
  \<^verbatim>\<open>save\<close> and no \<^verbatim>\<open>tx\<close>, and the queue has grown by exactly the elements added; when
  the other tasks settle, what was added is paid for by the requests sent.
\<close>

definition continues :: "env \<Rightarrow> state \<Rightarrow> state \<Rightarrow> bool" where
  "continues E s s' \<longleftrightarrow>
     (\<exists>tr. calls s' = calls s @ tr \<and> saved_of tr = [] \<and> finalized_of tr = 0 \<and>
           pending s' = pending s @ added_of tr \<and>
           (\<forall>K N. settles E K N \<longrightarrow>
              length (added_of tr) + K * (N - length (sent s')) \<le> K * (N - length (sent s))))"

definition quiet :: "env \<Rightarrow> 'a act \<Rightarrow> bool" where
  "quiet E m \<longleftrightarrow> (\<forall>s r s'. m s = (r, s') \<longrightarrow> continues E s s')"

section \<open>Example elements, backends and sessions\<close>

definition vertex_new :: obj where
  "vertex_new =
     \<lparr>type_attr = ''vertex'', id_attr = None, source = None, target = None,
      mapping_attr = [(''name'', ''name'')], attrs = []\<rparr>"

definition vertex_known :: obj where
  "vertex_known = vertex_new\<lparr>id_attr := Some (PyStr ''3'')\<rparr>"

definition edge_none_source :: obj where
  "edge_none_source =
     \<lparr>type_attr = ''edge'', id_attr = None, source = Some PyNone, target = Some (PyRef 1),
      mapping_attr = [], attrs = []\<rparr>"

definition edge_no_source :: obj where
  "edge_no_source = edge_none_source\<lparr>source := None\<rparr>"

definition edge_known :: obj where
  "edge_known = edge_none_source\<lparr>source := Some (PyRef 0), id_attr := Some (PyStr ''3'')\<rparr>"

definition row7 :: row where
  "row7 = \<lparr>rid = PyStr ''7'', rprops = [(''name'', PyStr ''ada'')]\<rparr>"

definition reply7 :: reply where
  "reply7 = \<lparr>outcome = Data [row7], meanwhile = []\<rparr>"

definition no_rows :: reply where
  "no_rows = \<lparr>outcome = Data [], meanwhile = []\<rparr>"

definition parse_example :: "traversal \<Rightarrow> script \<times> bindings" where
  "parse_example trav =
     (case trav of Traversal i ob \<Rightarrow>
        ((case i of
            GetVertexById \<Rightarrow> ''g.V(vid)'' | GetEdgeById \<Rightarrow> ''g.E(eid)''
          | AddVertex \<Rightarrow> ''g.addV()'' | AddEdge \<Rightarrow> ''g.addE()''
          | UpdateVertex \<Rightarrow> ''g.V(vid).property()'' | UpdateEdge \<Rightarrow> ''g.E(eid).property()''
          | RemoveVertex \<Rightarrow> ''g.V(vid).drop()'' | RemoveEdge \<Rightarrow> ''g.E(eid).drop()''),
         (case id_attr ob of None \<Rightarrow> [] | Some k \<Rightarrow> [(''id'', k)])))"

text \<open>A backend without transactions whose remote answers every request with \<open>rep\<close>.\<close>

definition plain_env :: "reply \<Rightarrow> env" where
  "plain_env rep = \<lparr>transactions = False, parse_traversal = parse_example, remote = (\<lambda>_. rep)\<rparr>"

text \<open>The same backend, advertising transactions.\<close>

definition tx_env :: "reply \<Rightarrow> env" where
  "tx_env rep = (plain_env rep)\<lparr>transactions := True\<rparr>"

text \<open>
  A backend without transactions that answers every request with \<open>row7\<close>; while the first
  request is awaited, another task adds the element at address 3.
\<close>

definition busy_env :: env where
  "busy_env =
     \<lparr>transactions = False, parse_traversal = parse_example,
      remote = (\<lambda>reqs. \<lparr>outcome = Data [row7],
                         meanwhile = (if length reqs = 1 then [3] else [])\<rparr>)\<rparr>"

text \<open>
  A backend without transactions that answers the first request with \<open>row7\<close> and every
  later one with no rows.
\<close>

definition drying_env :: env where
  "drying_env =
     \<lparr>transactions = False, parse_traversal = parse_example,
      remote = (\<lambda>reqs. \<lparr>outcome = Data (if length reqs = 1 then [row7] else []),
                         meanwhile = []\<rparr>)\<rparr>"

text \<open>
  A backend without transactions that finds no rows for the first request and answers
  every later one with \<open>row7\<close>.
\<close>

definition vanished_env :: env where
  "vanished_env =
     \<lparr>transactions = False, parse_traversal = parse_example,
      remote = (\<lambda>reqs. if length reqs = 1 then no_rows else reply7)\<rparr>"

text \<open>A fresh session over a store that holds the object \<open>ob\<close> at every address.\<close>

definition fresh :: "obj \<Rightarrow> state" where
  "fresh ob = init False (\<lambda>_. ob)"

section \<open>Basic facts\<close>

lemma add_eq: "add xs s = s\<lparr>pending := pending s @ xs, calls := calls s @ map Added xs\<rparr>"
  by (induction xs arbitrary: s) (simp_all add: add_def log_call_def)

lemma and_then_return [simp]: "and_then (return x) f s = f x s"
  by (simp add: and_then_def return_def)

lemma and_then_raise [simp]: "and_then (raise e) f s = (Inl e, s)"
  by (simp add: and_then_def raise_def)

lemma and_then_build [simp]:
  "and_then (build i a) f s = f (Traversal i (heap s a)) (log_call (Built (Traversal i (heap s a))) s)"
  by (simp add: and_then_def build_def)

lemma and_then_assoc: "and_then (and_then m f) g = and_then m (\<lambda>x. and_then (f x) g)"
  by (rule ext) (simp add: and_then_def split: prod.splits sum.splits)

lemma save_element_new:
  "id_attr (heap s a) = None \<Longrightarrow>
   save_element E a g c u m s =
     and_then (c a) (\<lambda>trav.
       and_then (execute_traversal E trav) (\<lambda>strm.
       and_then (fetch_data strm) (\<lambda>result.
         case result of
           [] \<Rightarrow> raise IndexError
         | r # _ \<Rightarrow> (\<lambda>s. m r a (mapping_attr (heap s a)) s)))) s"
  by (simp add: save_element_def and_then_def)

lemma save_element_known:
  "id_attr (heap s a) \<noteq> None \<Longrightarrow>
   save_element E a g c u m s =
     and_then (g a) (\<lambda>trav.
       and_then (execute_traversal E trav) (\<lambda>strm.
       and_then (fetch_data strm) (\<lambda>found.
       and_then (if found = [] then c a else u a) (\<lambda>trav.
       and_then (execute_traversal E trav) (\<lambda>strm.
       and_then (fetch_data strm) (\<lambda>result.
         case result of
           [] \<Rightarrow> raise IndexError
         | r # _ \<Rightarrow> (\<lambda>s. m r a (mapping_attr (heap s a)) s))))))) s"
  by (simp add: save_element_def and_then_def split: prod.splits sum.splits)

lemma execute_plain:
  "\<not> transactions E \<Longrightarrow>
   execute_traversal E t s =
     (case outcome (answer E t s) of
        Refused \<Rightarrow> Inl TransportError
      | out \<Rightarrow> Inr (Stream out), awaited E t s)"
  by (simp add: execute_traversal_def submit_def answer_def awaited_def request_of_def
      log_call_def Let_def split: prod.splits outcome.splits)

lemma execute_tx:
  "transactions E \<Longrightarrow> execute_traversal E t s = (Inl TypeError, log_call (Executed t) s)"
  by (simp add: execute_traversal_def call_use_session_def and_then_def raise_def split: prod.splits)

lemma round_trip_plain:
  "\<not> transactions E \<Longrightarrow>
   and_then (execute_traversal E t) (\<lambda>strm. and_then (fetch_data strm) f) s =
     (case outcome (answer E t s) of
        Refused \<Rightarrow> (Inl TransportError, awaited E t s)
      | Lost \<Rightarrow> (Inl TransportError, log_call Fetched (awaited E t s))
      | Data rows \<Rightarrow> f rows (log_call Fetched (awaited E t s)))"
  by (simp add: execute_plain and_then_def split: outcome.splits)

lemma round_trip_tx:
  "transactions E \<Longrightarrow>
   and_then (execute_traversal E t) (\<lambda>strm. and_then (fetch_data strm) f) s =
     (Inl TypeError, log_call (Executed t) s)"
  by (simp add: execute_tx and_then_def)

lemma executed_of_append [simp]: "executed_of (xs @ ys) = executed_of xs @ executed_of ys"
  by (induction xs rule: executed_of.induct) simp_all
lemma saved_of_append [simp]: "saved_of (xs @ ys) = saved_of xs @ saved_of ys"
  by (induction xs rule: saved_of.induct) simp_all
lemma added_of_append [simp]: "added_of (xs @ ys) = added_of xs @ added_of ys"
  by (induction xs rule: added_of.induct) simp_all
lemma built_of_append [simp]: "built_of (xs @ ys) = built_of xs @ built_of ys"
  by (induction xs rule: built_of.induct) simp_all
lemma mapped_of_append [simp]: "mapped_of (xs @ ys) = mapped_of xs @ mapped_of ys"
  by (induction xs rule: mapped_of.induct) simp_all
lemma fetches_of_append [simp]: "fetches_of (xs @ ys) = fetches_of xs + fetches_of ys"
  by (induction xs rule: fetches_of.induct) simp_all

lemma finalized_of_append [simp]: "finalized_of (xs @ ys) = finalized_of xs + finalized_of ys"
  by (induction xs rule: finalized_of.induct) simp_all
lemma finalized_of_Added [simp]: "finalized_of (map Added xs) = 0"
  by (induction xs) simp_all

lemma executed_of_Added [simp]: "executed_of (map Added xs) = []"
  by (induction xs) simp_all
lemma saved_of_Added [simp]: "saved_of (map Added xs) = []"
  by (induction xs) simp_all
lemma added_of_Added [simp]: "added_of (map Added xs) = xs"
  by (induction xs) simp_all
lemma built_of_Added [simp]: "built_of (map Added xs) = []"
  by (induction xs) simp_all
lemma mapped_of_Added [simp]: "mapped_of (map Added xs) = []"
  by (induction xs) simp_all
lemma fetches_of_Added [simp]: "fetches_of (map Added xs) = 0"
  by (induction xs) simp_all

lemmas unfold_state = answer_def awaited_def request_of_def add_eq log_call_def

lemma fresh_simps [simp]:
  "heap (fresh ob) a = ob" "sent (fresh ob) = []" "calls (fresh ob) = []"
  "pending (fresh ob) = []" "current (fresh ob) = Map.empty"
  "session_handle (fresh ob) = PyNone" "use_session (fresh ob) = False"
  by (simp_all add: fresh_def init_def)

lemma plain_env_simps [simp]:
  "transactions (plain_env rep) = False" "parse_traversal (plain_env rep) = parse_example"
  "remote (plain_env rep) reqs = rep"
  by (simp_all add: plain_env_def)

lemma tx_env_simps [simp]:
  "transactions (tx_env rep) = True" "parse_traversal (tx_env rep) = parse_example"
  "remote (tx_env rep) reqs = rep"
  by (simp_all add: tx_env_def)

section \<open>Saving an element\<close>

text \<open>
  C1. A vertex without an \<^verbatim>\<open>id\<close> attribute: \<^verbatim>\<open>save\<close> hands exactly one traversal to
  \<^verbatim>\<open>execute_traversal\<close>, the create traversal, and no fetch-by-id traversal, whatever the
  backend does. When the create result exists and has a first row \<open>r\<close> (the backend does
  not advertise transactions and the remote answers the create request with \<open>r # rs\<close>),
  the call returns the element, exactly that one request has been sent, the mapper has
  been called once, on \<open>r\<close> and the element, and the element's identity is the id that
  row \<open>r\<close> carries.
\<close>

theorem save_new_vertex:
  assumes "type_attr (heap s v) = ''vertex''" and "id_attr (heap s v) = None"
  shows "executed_of (calls (snd (save E v s))) =
           executed_of (calls s) @ [Traversal AddVertex (heap s v)] \<and>
         (\<forall>r rs. \<not> transactions E \<and>
            outcome (remote E (sent s @ [request_of E (Traversal AddVertex (heap s v)) s]))
              = Data (r # rs) \<longrightarrow>
            fst (save E v s) = Inr v \<and>
            sent (snd (save E v s)) = sent s @ [request_of E (Traversal AddVertex (heap s v)) s] \<and>
            mapped_of (calls (snd (save E v s))) = mapped_of (calls s) @ [(r, v)] \<and>
            heap (snd (save E v s)) v = merge_row r (mapping_attr (heap s v)) (heap s v) \<and>
            id_attr (heap (snd (save E v s)) v) = Some (rid r))"
proof (cases "transactions E")
  case True
  with assms show ?thesis
    by (simp add: save_def save_vertex_def and_then_def[of "save_element _ _ _ _ _ _"]
        save_element_new round_trip_tx Let_def log_call_def)
next
  case False
  with assms show ?thesis
    by (simp add: save_def save_vertex_def and_then_def[of "save_element _ _ _ _ _ _"]
        save_element_new round_trip_plain Let_def unfold_state map_vertex_to_ogm_def cache_def
        merge_row_def raise_def split: outcome.splits list.splits)
qed

theorem save_new_vertex_witness:
  "type_attr (heap (fresh vertex_new) 0) = ''vertex'' \<and>
   id_attr (heap (fresh vertex_new) 0) = None \<and>
   \<not> transactions (plain_env reply7) \<and>
   executed_of (calls (snd (save (plain_env reply7) 0 (fresh vertex_new)))) =
     [Traversal AddVertex vertex_new] \<and>
   fst (save (plain_env reply7) 0 (fresh vertex_new)) = Inr 0 \<and>
   sent (snd (save (plain_env reply7) 0 (fresh vertex_new))) = [(''g.addV()'', [], PyNone)] \<and>
   id_attr (heap (snd (save (plain_env reply7) 0 (fresh vertex_new))) 0) = Some (PyStr ''7'')"
proof -
  have v: "type_attr (heap (fresh vertex_new) 0) = ''vertex''"
    and n: "id_attr (heap (fresh vertex_new) 0) = None"
    by (simp_all add: vertex_new_def)
  have d: "\<not> transactions (plain_env reply7) \<and>
     outcome (remote (plain_env reply7) (sent (fresh vertex_new) @
       [request_of (plain_env reply7) (Traversal AddVertex (heap (fresh vertex_new) 0))
          (fresh vertex_new)])) = Data (row7 # [])"
    by (simp add: reply7_def)
  have q: "request_of (plain_env reply7) (Traversal AddVertex vertex_new) (fresh vertex_new)
             = (''g.addV()'', [], PyNone)"
    by (simp add: request_of_def parse_example_def vertex_new_def)
  note w = save_new_vertex [OF v n, of "plain_env reply7"]
  from w have e: "executed_of (calls (snd (save (plain_env reply7) 0 (fresh vertex_new)))) =
     [Traversal AddVertex vertex_new]"
    by simp
  from w d have r: "fst (save (plain_env reply7) 0 (fresh vertex_new)) = Inr 0 \<and>
      sent (snd (save (plain_env reply7) 0 (fresh vertex_new))) = [(''g.addV()'', [], PyNone)] \<and>
      id_attr (heap (snd (save (plain_env reply7) 0 (fresh vertex_new))) 0) = Some (rid row7)"
    unfolding fresh_simps q by (metis append_Nil)
  from v n e r show ?thesis
    by (simp add: row7_def)
qed

section \<open>Executing a traversal\<close>

text \<open>
  C8, as the code has it. \<^verbatim>\<open>execute_traversal\<close> compiles the traversal to a script and
  bindings. When the backend does not advertise transactions, it submits the script
  unmodified, with its bindings and the session handle, and returns the stream the engine
  gives (or fails as the engine does). When the backend advertises transactions, the
  session has no transaction wrapper to apply: the call fails and nothing is submitted.
\<close>

theorem execute_traversal_submits:
  "(\<not> transactions E \<longrightarrow>
      sent (snd (execute_traversal E trav s)) = sent s @ [request_of E trav s] \<and>
      fst (execute_traversal E trav s) =
        (case outcome (remote E (sent s @ [request_of E trav s])) of
           Refused \<Rightarrow> Inl TransportError
         | out \<Rightarrow> Inr (Stream out))) \<and>
   (transactions E \<longrightarrow>
      sent (snd (execute_traversal E trav s)) = sent s \<and>
      (\<exists>e. fst (execute_traversal E trav s) = Inl e))"
  by (simp add: execute_plain execute_tx unfold_state)

theorem execute_traversal_submits_witness:
  "\<not> transactions (plain_env reply7) \<and>
   sent (snd (execute_traversal (plain_env reply7) (Traversal AddVertex vertex_new)
                (fresh vertex_new))) = [(''g.addV()'', [], PyNone)] \<and>
   fst (execute_traversal (plain_env reply7) (Traversal AddVertex vertex_new)
          (fresh vertex_new)) = Inr (Stream (Data [row7])) \<and>
   transactions (tx_env reply7) \<and>
   sent (snd (execute_traversal (tx_env reply7) (Traversal AddVertex vertex_new)
                (fresh vertex_new))) = []"
  using execute_traversal_submits [of "plain_env reply7" "Traversal AddVertex vertex_new"
      "fresh vertex_new"]
    execute_traversal_submits [of "tx_env reply7" "Traversal AddVertex vertex_new"
      "fresh vertex_new"]
  by (simp add: reply7_def request_of_def parse_example_def vertex_new_def)

text \<open>
  C8, as the spec states it, fails on a backend that advertises transactions: the
  session is not session-scoped, yet no wrapped script is submitted and no stream is
  returned; the call raises.
\<close>

theorem execute_traversal_tx_counterexample:
  "transactions (tx_env reply7) \<and> \<not> use_session (fresh vertex_new) \<and>
   fst (execute_traversal (tx_env reply7) (Traversal AddVertex vertex_new) (fresh vertex_new))
     = Inl TypeError \<and>
   sent (snd (execute_traversal (tx_env reply7) (Traversal AddVertex vertex_new)
                (fresh vertex_new))) = []"
  by (simp add: execute_tx log_call_def)

section \<open>Edges without endpoints\<close>

text \<open>
  C3, as the code has it. An edge that lacks the \<^verbatim>\<open>source\<close> attribute or the
  \<^verbatim>\<open>target\<close> attribute (\<^verbatim>\<open>hasattr\<close> is false) is rejected by \<^verbatim>\<open>save\<close> and
  \<^verbatim>\<open>save_edge\<close> with the endpoints error before anything else happens: no traversal is
  built, \<^verbatim>\<open>execute_traversal\<close> is not called and nothing is sent; \<^verbatim>\<open>save_edge\<close> leaves
  the state as it was. An attribute that exists and holds None counts as present.
\<close>

theorem save_edge_missing_endpoint:
  assumes "type_attr (heap s e) = ''edge''"
    and "source (heap s e) = None \<or> target (heap s e) = None"
  shows "save E e s = (Inl MissingEndpoints, log_call (Saved e) s) \<and>
         save_edge E e s = (Inl MissingEndpoints, s) \<and>
         built_of (calls (snd (save E e s))) = built_of (calls s) \<and>
         executed_of (calls (snd (save E e s))) = executed_of (calls s) \<and>
         sent (snd (save E e s)) = sent s"
  using assms by (auto simp add: save_def save_edge_def raise_def log_call_def Let_def)

theorem save_edge_missing_endpoint_witness:
  "type_attr (heap (fresh edge_no_source) 0) = ''edge'' \<and>
   source (heap (fresh edge_no_source) 0) = None \<and>
   fst (save (plain_env reply7) 0 (fresh edge_no_source)) = Inl MissingEndpoints \<and>
   executed_of (calls (snd (save (plain_env reply7) 0 (fresh edge_no_source)))) = [] \<and>
   sent (snd (save (plain_env reply7) 0 (fresh edge_no_source))) = []"
proof -
  have t: "type_attr (heap (fresh edge_no_source) 0) = ''edge''"
    and n: "source (heap (fresh edge_no_source) 0) = None"
    by (simp_all add: edge_no_source_def edge_none_source_def)
  from n have d: "source (heap (fresh edge_no_source) 0) = None \<or>
      target (heap (fresh edge_no_source) 0) = None" by simp
  from save_edge_missing_endpoint [OF t d, of "plain_env reply7"] t n show ?thesis
    by (simp add: log_call_def)
qed

text \<open>
  C3, as the spec states it, fails for an edge whose \<^verbatim>\<open>source\<close> attribute exists and
  holds None: \<^verbatim>\<open>hasattr\<close> is true, the edge is saved, and a create request is sent.
\<close>

theorem save_edge_none_source_counterexample:
  "type_attr (heap (fresh edge_none_source) 0) = ''edge'' \<and>
   source (heap (fresh edge_none_source) 0) = Some PyNone \<and>
   fst (save (plain_env reply7) 0 (fresh edge_none_source)) = Inr 0 \<and>
   executed_of (calls (snd (save (plain_env reply7) 0 (fresh edge_none_source)))) =
     [Traversal AddEdge edge_none_source] \<and>
   sent (snd (save (plain_env reply7) 0 (fresh edge_none_source))) =
     [(''g.addE()'', [], PyNone)]"
  by (simp add: save_def save_edge_def and_then_def[of "save_element _ _ _ _ _ _"]
      save_element_new round_trip_plain Let_def unfold_state map_edge_to_ogm_def cache_def
      merge_row_def reply7_def edge_none_source_def parse_example_def)

section \<open>Getting an element\<close>

text \<open>
  C6. When the fetch result of \<^verbatim>\<open>get_vertex\<close> or \<^verbatim>\<open>get_edge\<close> is the empty row
  sequence (the backend does not advertise transactions and the remote answers the
  fetch-by-id request with no rows), the call returns Python's None, not an exception, the
  mapper is not called, and no element object changes.
\<close>

theorem get_empty_result:
  assumes "\<not> transactions E"
  shows "(outcome (remote E (sent s @ [request_of E (Traversal GetVertexById (heap s a)) s]))
            = Data [] \<longrightarrow>
          fst (get_vertex E a s) = Inr None \<and>
          mapped_of (calls (snd (get_vertex E a s))) = mapped_of (calls s) \<and>
          heap (snd (get_vertex E a s)) = heap s) \<and>
         (outcome (remote E (sent s @ [request_of E (Traversal GetEdgeById (heap s a)) s]))
            = Data [] \<longrightarrow>
          fst (get_edge E a s) = Inr None \<and>
          mapped_of (calls (snd (get_edge E a s))) = mapped_of (calls s) \<and>
          heap (snd (get_edge E a s)) = heap s)"
  using assms
  by (simp add: get_vertex_def get_edge_def round_trip_plain unfold_state return_def)

theorem get_empty_result_witness:
  "\<not> transactions (plain_env no_rows) \<and>
   outcome (remote (plain_env no_rows)
     [request_of (plain_env no_rows) (Traversal GetEdgeById edge_known) (fresh edge_known)])
     = Data [] \<and>
   fst (get_edge (plain_env no_rows) 0 (fresh edge_known)) = Inr None \<and>
   mapped_of (calls (snd (get_edge (plain_env no_rows) 0 (fresh edge_known)))) = [] \<and>
   fst (get_vertex (plain_env no_rows) 0 (fresh vertex_known)) = Inr None \<and>
   mapped_of (calls (snd (get_vertex (plain_env no_rows) 0 (fresh vertex_known)))) = []"
proof -
  have t: "\<not> transactions (plain_env no_rows)" by simp
  from get_empty_result [OF t, of "fresh edge_known" 0]
    get_empty_result [OF t, of "fresh vertex_known" 0]
  show ?thesis by (simp add: no_rows_def)
qed

text \<open>
  C7, as the code has it. When the fetch result has a first row \<open>r\<close>, \<^verbatim>\<open>get_vertex\<close> and
  \<^verbatim>\<open>get_edge\<close> hand \<open>r\<close> and the caller's element to the mapper, which merges the row
  onto that element; the element returned is the argument itself, now holding the merged
  fields, and the identity cache is as it was.
\<close>

theorem get_merges_onto_argument:
  assumes "\<not> transactions E"
  shows "(outcome (remote E (sent s @ [request_of E (Traversal GetVertexById (heap s a)) s]))
            = Data (r # rs) \<longrightarrow>
          fst (get_vertex E a s) = Inr (Some a) \<and>
          heap (snd (get_vertex E a s)) =
            (heap s)(a := merge_row r (mapping_attr (heap s a)) (heap s a)) \<and>
          current (snd (get_vertex E a s)) = current s) \<and>
         (outcome (remote E (sent s @ [request_of E (Traversal GetEdgeById (heap s a)) s]))
            = Data (r # rs) \<longrightarrow>
          fst (get_edge E a s) = Inr (Some a) \<and>
          heap (snd (get_edge E a s)) =
            (heap s)(a := merge_row r (mapping_attr (heap s a)) (heap s a)) \<and>
          current (snd (get_edge E a s)) = current s)"
  using assms
  by (simp add: get_vertex_def get_edge_def round_trip_plain unfold_state,
      simp add: return_def map_vertex_to_ogm_def map_edge_to_ogm_def and_then_def log_call_def)

theorem get_merges_onto_argument_witness:
  "\<not> transactions (plain_env reply7) \<and>
   fst (get_vertex (plain_env reply7) 0 (fresh vertex_known)) = Inr (Some 0) \<and>
   id_attr (heap (snd (get_vertex (plain_env reply7) 0 (fresh vertex_known))) 0)
     = Some (PyStr ''7'') \<and>
   fst (get_edge (plain_env reply7) 0 (fresh edge_known)) = Inr (Some 0) \<and>
   id_attr (heap (snd (get_edge (plain_env reply7) 0 (fresh edge_known))) 0)
     = Some (PyStr ''7'')"
proof -
  have t: "\<not> transactions (plain_env reply7)" by simp
  from get_merges_onto_argument [OF t, of "fresh vertex_known" 0 row7 "[]"]
    get_merges_onto_argument [OF t, of "fresh edge_known" 0 row7 "[]"]
  show ?thesis by (simp add: reply7_def merge_row_def row7_def)
qed

text \<open>
  C7, as the spec states it, fails: the element returned is the one passed in, and the
  object the caller passed in has changed (its id was \<open>''3''\<close> and is \<open>''7''\<close> now).
\<close>

theorem get_vertex_new_element_counterexample:
  "fst (get_vertex (plain_env reply7) 0 (fresh vertex_known)) = Inr (Some 0) \<and>
   heap (fresh vertex_known) 0 = vertex_known \<and>
   heap (snd (get_vertex (plain_env reply7) 0 (fresh vertex_known))) 0 \<noteq> vertex_known \<and>
   id_attr (heap (snd (get_vertex (plain_env reply7) 0 (fresh vertex_known))) 0)
     = Some (PyStr ''7'')"
  by (simp add: get_vertex_def round_trip_plain unfold_state reply7_def,
      simp add: return_def map_vertex_to_ogm_def and_then_def merge_row_def row7_def
        vertex_known_def vertex_new_def log_call_def)

section \<open>Removing an element\<close>

text \<open>
  C10. Let the element carry an id that is not a key of the identity cache. When the
  delete traversal is executed and its result fetched (the backend does not advertise
  transactions and the remote answers the delete request with data), \<^verbatim>\<open>remove_vertex\<close>
  and \<^verbatim>\<open>remove_edge\<close> raise KeyError, and the delete request has been sent and fetched
  by then. Conversely, whenever they raise KeyError, the delete request has been sent and
  its result fetched: the error comes only after the remote delete.
\<close>

theorem remove_uncached:
  assumes "id_attr (heap s a) = Some k" and "current s k = None"
  shows "(\<not> transactions E \<and>
          outcome (remote E (sent s @ [request_of E (Traversal RemoveVertex (heap s a)) s]))
            = Data rows \<longrightarrow>
          fst (remove_vertex E a s) = Inl KeyError \<and>
          sent (snd (remove_vertex E a s)) =
            sent s @ [request_of E (Traversal RemoveVertex (heap s a)) s] \<and>
          fetches_of (calls (snd (remove_vertex E a s))) = Suc (fetches_of (calls s))) \<and>
         (\<not> transactions E \<and>
          outcome (remote E (sent s @ [request_of E (Traversal RemoveEdge (heap s a)) s]))
            = Data rows \<longrightarrow>
          fst (remove_edge E a s) = Inl KeyError \<and>
          sent (snd (remove_edge E a s)) =
            sent s @ [request_of E (Traversal RemoveEdge (heap s a)) s] \<and>
          fetches_of (calls (snd (remove_edge E a s))) = Suc (fetches_of (calls s))) \<and>
         (fst (remove_vertex E a s) = Inl KeyError \<longrightarrow>
          sent (snd (remove_vertex E a s)) =
            sent s @ [request_of E (Traversal RemoveVertex (heap s a)) s] \<and>
          fetches_of (calls (snd (remove_vertex E a s))) = Suc (fetches_of (calls s))) \<and>
         (fst (remove_edge E a s) = Inl KeyError \<longrightarrow>
          sent (snd (remove_edge E a s)) =
            sent s @ [request_of E (Traversal RemoveEdge (heap s a)) s] \<and>
          fetches_of (calls (snd (remove_edge E a s))) = Suc (fetches_of (calls s)))"
proof (cases "transactions E")
  case True
  then show ?thesis
    by (simp add: remove_vertex_def remove_edge_def remove_element_def round_trip_tx)
next
  case False
  with assms show ?thesis
    by (simp add: remove_vertex_def remove_edge_def remove_element_def round_trip_plain
        unfold_state split: outcome.splits,
        simp add: and_then_def uncache_def log_call_def)
qed

theorem remove_uncached_witness:
  "id_attr (heap (fresh vertex_known) 0) = Some (PyStr ''3'') \<and>
   current (fresh vertex_known) (PyStr ''3'') = None \<and>
   \<not> transactions (plain_env no_rows) \<and>
   fst (remove_vertex (plain_env no_rows) 0 (fresh vertex_known)) = Inl KeyError \<and>
   sent (snd (remove_vertex (plain_env no_rows) 0 (fresh vertex_known))) =
     [(''g.V(vid).drop()'', [(''id'', PyStr ''3'')], PyNone)] \<and>
   fetches_of (calls (snd (remove_vertex (plain_env no_rows) 0 (fresh vertex_known)))) = 1"
proof -
  have i: "id_attr (heap (fresh vertex_known) 0) = Some (PyStr ''3'')"
    by (simp add: vertex_known_def)
  have c: "current (fresh vertex_known) (PyStr ''3'') = None" by simp
  from remove_uncached [OF i c, of "plain_env no_rows" "[]"] i c show ?thesis
    by (simp add: no_rows_def request_of_def parse_example_def vertex_known_def)
qed

section \<open>The identity cache\<close>

lemma cache_result:
  "cache a s = (Inr x, s') \<Longrightarrow>
   x = a \<and> heap s' = heap s \<and> (\<exists>k. id_attr (heap s' a) = Some k \<and> current s' k = Some a)"
  by (auto simp add: cache_def split: option.splits)

lemma map_vertex_result: "map_vertex_to_ogm r a m s = (Inr x, s') \<Longrightarrow> x = a"
  by (auto simp add: map_vertex_to_ogm_def)

lemma map_edge_result: "map_edge_to_ogm r a m s = (Inr x, s') \<Longrightarrow> x = a"
  by (auto simp add: map_edge_to_ogm_def)

lemma and_then_InrD:
  "and_then m f s = (Inr y, s') \<Longrightarrow> \<exists>x s1. m s = (Inr x, s1) \<and> f x s1 = (Inr y, s')"
  by (auto simp add: and_then_def split: prod.splits sum.splits)

lemma save_element_result:
  assumes "save_element E a g c u mp s = (Inr x, s')"
    and "\<And>r m s x s'. mp r a m s = (Inr x, s') \<Longrightarrow> x = a"
  shows "x = a"
proof -
  from assms(1) obtain t s1 where
    "and_then (execute_traversal E t) (\<lambda>strm. and_then (fetch_data strm) (\<lambda>result.
        case result of [] \<Rightarrow> raise IndexError
        | r # _ \<Rightarrow> (\<lambda>s. mp r a (mapping_attr (heap s a)) s))) s1 = (Inr x, s')"
    unfolding save_element_def by (blast dest: and_then_InrD)
  then obtain rows s2 where
    "(case rows of [] \<Rightarrow> raise IndexError
        | r # _ \<Rightarrow> (\<lambda>s. mp r a (mapping_attr (heap s a)) s)) s2 = (Inr x, s')"
    by (blast dest: and_then_InrD)
  then show ?thesis
    using assms(2) by (cases rows) (auto simp add: raise_def)
qed

lemma save_result:
  assumes "save E a s = (Inr x, s')"
  shows "x = a \<and> (\<exists>k. id_attr (heap s' a) = Some k \<and> current s' k = Some a)"
proof -
  from assms obtain y s1 s0 where c: "cache y s1 = (Inr x, s')"
    and e: "save_element E a get_vertex_by_id add_vertex update_vertex map_vertex_to_ogm s0
              = (Inr y, s1) \<or>
            save_element E a get_edge_by_id add_edge update_edge map_edge_to_ogm s0
              = (Inr y, s1)"
    by (auto simp add: save_def save_vertex_def save_edge_def Let_def raise_def
        split: if_splits dest!: and_then_InrD)
  from e have "y = a"
    by (auto dest: save_element_result map_vertex_result map_edge_result)
  with c show ?thesis by (auto dest: cache_result)
qed


lemma execute_frame:
  "execute_traversal E t s = (r, s') \<Longrightarrow> heap s' = heap s \<and> current s' = current s"
  by (cases "transactions E")
     (auto simp add: execute_plain execute_tx unfold_state split: outcome.splits)

lemma fetch_frame:
  "fetch_data strm s = (r, s') \<Longrightarrow> heap s' = heap s \<and> current s' = current s"
  by (cases strm) (auto simp add: log_call_def split: outcome.splits)

lemma uncache_result:
  "uncache a s = (Inr u, s') \<Longrightarrow>
   heap s' = heap s \<and> (\<exists>k. id_attr (heap s a) = Some k \<and> current s' k = None)"
  by (auto simp add: uncache_def split: option.splits if_splits)

lemma remove_element_result:
  assumes "remove_element E a t s = (Inr rows, s')"
  shows "\<exists>k. id_attr (heap s' a) = Some k \<and> current s' k = None"
proof -
  from assms obtain strm s1 found s2 u where
    x: "execute_traversal E t s = (Inr strm, s1)" and
    f: "fetch_data strm s1 = (Inr found, s2)" and
    d: "uncache a s2 = (Inr u, s')"
    unfolding remove_element_def
    by (auto dest!: and_then_InrD simp add: return_def)
  from uncache_result [OF d] show ?thesis by auto
qed

lemma get_vertex_current: "current (snd (get_vertex E a s)) = current s"
proof (cases "transactions E")
  case True
  then show ?thesis
    by (simp add: get_vertex_def round_trip_tx log_call_def)
next
  case False
  then show ?thesis
    by (simp add: get_vertex_def round_trip_plain unfold_state split: outcome.splits list.splits;
        simp add: and_then_def return_def map_vertex_to_ogm_def log_call_def)
qed

lemma get_edge_current: "current (snd (get_edge E a s)) = current s"
proof (cases "transactions E")
  case True
  then show ?thesis
    by (simp add: get_edge_def round_trip_tx log_call_def)
next
  case False
  then show ?thesis
    by (simp add: get_edge_def round_trip_plain unfold_state split: outcome.splits list.splits;
        simp add: and_then_def return_def map_edge_to_ogm_def log_call_def)
qed

lemma reply7_simps [simp]: "outcome reply7 = Data [row7]" "meanwhile reply7 = []"
  by (simp_all add: reply7_def)

lemma no_rows_simps [simp]: "outcome no_rows = Data []" "meanwhile no_rows = []"
  by (simp_all add: no_rows_def)

lemma save7:
  "fst (save (plain_env reply7) 0 (fresh vertex_new)) = Inr 0"
  "current (snd (save (plain_env reply7) 0 (fresh vertex_new))) = [PyStr ''7'' \<mapsto> 0]"
  "id_attr (heap (snd (save (plain_env reply7) 0 (fresh vertex_new))) 0) = Some (PyStr ''7'')"
  "pending (snd (save (plain_env reply7) 0 (fresh vertex_new))) = []"
  by (simp_all add: save_def save_vertex_def and_then_def[of "save_element _ _ _ _ _ _"]
      save_element_new round_trip_plain Let_def unfold_state map_vertex_to_ogm_def cache_def
      merge_row_def reply7_def vertex_new_def row7_def)

text \<open>
  C5, as the code has it. When \<^verbatim>\<open>save\<close> succeeds, it returns the element it was
  given, the element carries an id, and the identity cache maps that id to the element.
  When \<^verbatim>\<open>remove_vertex\<close> or \<^verbatim>\<open>remove_edge\<close> succeeds, the element's id is absent from
  the cache. \<^verbatim>\<open>get_vertex\<close> and \<^verbatim>\<open>get_edge\<close> never change the cache.
\<close>

theorem identity_cache:
  "(save E a s = (Inr x, s') \<longrightarrow>
      x = a \<and> (\<exists>k. id_attr (heap s' a) = Some k \<and> current s' k = Some a)) \<and>
   (remove_vertex E a s = (Inr rows, s') \<or> remove_edge E a s = (Inr rows, s') \<longrightarrow>
      (\<exists>k. id_attr (heap s' a) = Some k \<and> current s' k = None)) \<and>
   current (snd (get_vertex E a s)) = current s \<and>
   current (snd (get_edge E a s)) = current s"
  by (auto simp add: get_vertex_current get_edge_current remove_vertex_def remove_edge_def
      dest: save_result remove_element_result)

theorem identity_cache_witness:
  "fst (save (plain_env reply7) 0 (fresh vertex_new)) = Inr 0 \<and>
   id_attr (heap (snd (save (plain_env reply7) 0 (fresh vertex_new))) 0) = Some (PyStr ''7'') \<and>
   current (snd (save (plain_env reply7) 0 (fresh vertex_new))) (PyStr ''7'') = Some 0 \<and>
   fst (remove_vertex (plain_env reply7) 0 (snd (save (plain_env reply7) 0 (fresh vertex_new))))
     = Inr [row7] \<and>
   current (snd (remove_vertex (plain_env reply7) 0
     (snd (save (plain_env reply7) 0 (fresh vertex_new))))) (PyStr ''7'') = None"
proof -
  let ?E = "plain_env reply7"
  let ?s1 = "snd (save ?E 0 (fresh vertex_new))"
  let ?s2 = "snd (remove_vertex ?E 0 ?s1)"
  have a: "save ?E 0 (fresh vertex_new) = (Inr 0, ?s1)"
    by (simp add: prod_eq_iff save7)
  have r: "fst (remove_vertex ?E 0 ?s1) = Inr [row7]"
    by (simp add: remove_vertex_def remove_element_def round_trip_plain unfold_state,
        simp add: and_then_def uncache_def save7 return_def)
  then have b: "remove_vertex ?E 0 ?s1 = (Inr [row7], ?s2)"
    by (simp add: prod_eq_iff)
  have i: "id_attr (heap ?s2 0) = Some (PyStr ''7'')"
    by (simp add: remove_vertex_def remove_element_def round_trip_plain unfold_state,
        simp add: and_then_def uncache_def save7 return_def)
  from identity_cache [where E = ?E and a = 0 and s = "fresh vertex_new" and x = 0 and s' = ?s1] a
  have 1: "current ?s1 (PyStr ''7'') = Some 0" by (auto simp add: save7)
  from identity_cache [where E = ?E and a = 0 and s = ?s1 and rows = "[row7]" and s' = ?s2] b i
  have 2: "current ?s2 (PyStr ''7'') = None" by auto
  from 1 2 r show ?thesis by (simp add: save7)
qed

text \<open>
  C5, as the spec states it, fails for \<^verbatim>\<open>get_vertex\<close>: after a successful get on a
  fresh session the element has the id \<open>''7''\<close>, and the cache has an entry neither for
  this id nor for the id the element had before.
\<close>

theorem get_refreshes_cache_counterexample:
  "fst (get_vertex (plain_env reply7) 0 (fresh vertex_known)) = Inr (Some 0) \<and>
   id_attr (heap (snd (get_vertex (plain_env reply7) 0 (fresh vertex_known))) 0)
     = Some (PyStr ''7'') \<and>
   current (snd (get_vertex (plain_env reply7) 0 (fresh vertex_known))) (PyStr ''7'') = None \<and>
   current (snd (get_vertex (plain_env reply7) 0 (fresh vertex_known))) (PyStr ''3'') = None"
  by (simp add: get_vertex_def round_trip_plain unfold_state,
      simp add: return_def map_vertex_to_ogm_def and_then_def merge_row_def row7_def
        log_call_def)

section \<open>Saving an element that carries an id\<close>

lemma vanished_env_simps [simp]:
  "transactions vanished_env = False" "parse_traversal vanished_env = parse_example"
  "remote vanished_env [q] = no_rows" "remote vanished_env [q, q'] = reply7"
  by (simp_all add: vanished_env_def)

lemma request_of_example [simp]:
  "parse_traversal E = parse_example \<Longrightarrow>
   request_of E (Traversal i ob) s = (fst (parse_example (Traversal i ob)),
     snd (parse_example (Traversal i ob)), session_handle s)"
  by (simp add: request_of_def)

text \<open>
  C2. A vertex with an \<^verbatim>\<open>id\<close> attribute: \<^verbatim>\<open>save\<close> executes the fetch-by-id traversal
  first and exactly once, and after it at most one more traversal, a create or an update,
  whatever the backend does. When the fetch result exists (the backend does not advertise
  transactions and the remote answers the fetch with \<open>found\<close>), exactly one more traversal
  is executed: the update when \<open>found\<close> has a row (never a create), the create when
  \<open>found\<close> is empty (never an update). When the result of that last traversal has a first
  row \<open>r\<close>, the mapper is called once, on \<open>r\<close> and the element, the element holds the
  merged fields, and \<^verbatim>\<open>save\<close> returns the element.
\<close>

theorem save_known_vertex:
  assumes "type_attr (heap s v) = ''vertex''" and "id_attr (heap s v) = Some k"
  shows "(executed_of (calls (snd (save E v s))) =
            executed_of (calls s) @ [Traversal GetVertexById (heap s v)] \<or>
          executed_of (calls (snd (save E v s))) =
            executed_of (calls s) @
              [Traversal GetVertexById (heap s v), Traversal AddVertex (heap s v)] \<or>
          executed_of (calls (snd (save E v s))) =
            executed_of (calls s) @
              [Traversal GetVertexById (heap s v), Traversal UpdateVertex (heap s v)]) \<and>
         (\<forall>found. \<not> transactions E \<and>
            outcome (remote E (sent s @ [request_of E (Traversal GetVertexById (heap s v)) s]))
              = Data found \<longrightarrow>
            executed_of (calls (snd (save E v s))) =
              executed_of (calls s) @
                [Traversal GetVertexById (heap s v),
                 Traversal (if found = [] then AddVertex else UpdateVertex) (heap s v)] \<and>
            (\<forall>r rs.
               outcome (remote E (sent s @
                 [request_of E (Traversal GetVertexById (heap s v)) s,
                  request_of E (Traversal (if found = [] then AddVertex else UpdateVertex)
                    (heap s v)) s])) = Data (r # rs) \<longrightarrow>
               fst (save E v s) = Inr v \<and>
               sent (snd (save E v s)) = sent s @
                 [request_of E (Traversal GetVertexById (heap s v)) s,
                  request_of E (Traversal (if found = [] then AddVertex else UpdateVertex)
                    (heap s v)) s] \<and>
               mapped_of (calls (snd (save E v s))) = mapped_of (calls s) @ [(r, v)] \<and>
               heap (snd (save E v s)) v = merge_row r (mapping_attr (heap s v)) (heap s v)))"
proof (cases "transactions E")
  case True
  with assms show ?thesis
    by (simp add: save_def save_vertex_def and_then_def[of "save_element _ _ _ _ _ _"]
        save_element_known round_trip_tx Let_def log_call_def)
next
  case False
  with assms show ?thesis
    by (simp add: save_def save_vertex_def and_then_def[of "save_element _ _ _ _ _ _"]
        save_element_known round_trip_plain Let_def log_call_def split: outcome.splits;
        simp add: and_then_def[of "\<lambda>s. if _ s then _ s else _ s"] build_def
          round_trip_plain unfold_state map_vertex_to_ogm_def cache_def merge_row_def raise_def
          split: outcome.splits list.splits)
qed

theorem save_known_vertex_witness:
  "type_attr (heap (fresh vertex_known) 0) = ''vertex'' \<and>
   id_attr (heap (fresh vertex_known) 0) = Some (PyStr ''3'') \<and>
   executed_of (calls (snd (save (plain_env reply7) 0 (fresh vertex_known)))) =
     [Traversal GetVertexById vertex_known, Traversal UpdateVertex vertex_known] \<and>
   fst (save (plain_env reply7) 0 (fresh vertex_known)) = Inr 0 \<and>
   id_attr (heap (snd (save (plain_env reply7) 0 (fresh vertex_known))) 0) = Some (PyStr ''7'') \<and>
   executed_of (calls (snd (save vanished_env 0 (fresh vertex_known)))) =
     [Traversal GetVertexById vertex_known, Traversal AddVertex vertex_known] \<and>
   fst (save vanished_env 0 (fresh vertex_known)) = Inr 0 \<and>
   sent (snd (save vanished_env 0 (fresh vertex_known))) =
     [(''g.V(vid)'', [(''id'', PyStr ''3'')], PyNone),
      (''g.addV()'', [(''id'', PyStr ''3'')], PyNone)]"
proof -
  have t: "type_attr (heap (fresh vertex_known) 0) = ''vertex''"
    and i: "id_attr (heap (fresh vertex_known) 0) = Some (PyStr ''3'')"
    by (simp_all add: vertex_known_def vertex_new_def)
  note u = save_known_vertex [OF t i, of "plain_env reply7", THEN conjunct2,
      THEN spec [where x = "[row7]"]]
  then have u1: "executed_of (calls (snd (save (plain_env reply7) 0 (fresh vertex_known)))) =
     [Traversal GetVertexById vertex_known, Traversal UpdateVertex vertex_known]"
    by simp
  from u have "\<forall>r rs. Data [row7] = Data (r # rs) \<longrightarrow>
      fst (save (plain_env reply7) 0 (fresh vertex_known)) = Inr 0 \<and>
      heap (snd (save (plain_env reply7) 0 (fresh vertex_known))) 0 =
        merge_row r (mapping_attr vertex_known) vertex_known"
    by simp
  then have u2: "fst (save (plain_env reply7) 0 (fresh vertex_known)) = Inr 0 \<and>
      id_attr (heap (snd (save (plain_env reply7) 0 (fresh vertex_known))) 0) = Some (PyStr ''7'')"
    by (simp add: merge_row_def row7_def)
  note w = save_known_vertex [OF t i, of vanished_env, THEN conjunct2,
      THEN spec [where x = "[]"]]
  then have w1: "executed_of (calls (snd (save vanished_env 0 (fresh vertex_known)))) =
     [Traversal GetVertexById vertex_known, Traversal AddVertex vertex_known]"
    by simp
  from w have "\<forall>r rs. Data [row7] = Data (r # rs) \<longrightarrow>
      fst (save vanished_env 0 (fresh vertex_known)) = Inr 0 \<and>
      sent (snd (save vanished_env 0 (fresh vertex_known))) =
       [(''g.V(vid)'', [(''id'', PyStr ''3'')], PyNone),
        (''g.addV()'', [(''id'', PyStr ''3'')], PyNone)]"
    by (simp add: parse_example_def vertex_known_def)
  then have w2: "fst (save vanished_env 0 (fresh vertex_known)) = Inr 0 \<and>
      sent (snd (save vanished_env 0 (fresh vertex_known))) =
       [(''g.V(vid)'', [(''id'', PyStr ''3'')], PyNone),
        (''g.addV()'', [(''id'', PyStr ''3'')], PyNone)]"
    by simp
  from t i u1 u2 w1 w2 show ?thesis by simp
qed

section \<open>Flushing the queue\<close>

lemma continues_refl [simp]: "continues E s s"
  by (simp add: continues_def)

lemma continues_trans:
  assumes "continues E s s1" and "continues E s1 s2"
  shows "continues E s s2"
proof -
  from assms(1) obtain tr1 where
    c1: "calls s1 = calls s @ tr1" "saved_of tr1 = []" "finalized_of tr1 = 0"
      "pending s1 = pending s @ added_of tr1" and
    b1: "\<And>K N. settles E K N \<Longrightarrow>
      length (added_of tr1) + K * (N - length (sent s1)) \<le> K * (N - length (sent s))"
    unfolding continues_def by blast
  from assms(2) obtain tr2 where
    c2: "calls s2 = calls s1 @ tr2" "saved_of tr2 = []" "finalized_of tr2 = 0"
      "pending s2 = pending s1 @ added_of tr2" and
    b2: "\<And>K N. settles E K N \<Longrightarrow>
      length (added_of tr2) + K * (N - length (sent s2)) \<le> K * (N - length (sent s1))"
    unfolding continues_def by blast
  have "length (added_of (tr1 @ tr2)) + K * (N - length (sent s2)) \<le> K * (N - length (sent s))"
    if "settles E K N" for K N
    using b1 [OF that] b2 [OF that] by simp
  with c1 c2 show ?thesis
    unfolding continues_def by (intro exI [of _ "tr1 @ tr2"]) simp
qed

lemma quiet_return [simp]: "quiet E (return x)"
  by (simp add: quiet_def return_def)

lemma quiet_raise [simp]: "quiet E (raise e)"
  by (simp add: quiet_def raise_def)

lemma quiet_and_then:
  "quiet E m \<Longrightarrow> (\<And>x. quiet E (f x)) \<Longrightarrow> quiet E (and_then m f)"
proof -
  assume m: "quiet E m" and f: "\<And>x. quiet E (f x)"
  show ?thesis
    unfolding quiet_def
  proof (intro allI impI)
    fix s r s'
    assume a: "and_then m f s = (r, s')"
    show "continues E s s'"
    proof (cases "m s")
      case (Pair r1 s1)
      with m have c1: "continues E s s1" by (simp add: quiet_def)
      show ?thesis
      proof (cases r1)
        case (Inl e)
        with a Pair c1 show ?thesis by (simp add: and_then_def)
      next
        case (Inr x)
        with a Pair have "f x s1 = (r, s')" by (simp add: and_then_def)
        with f have "continues E s1 s'" by (simp add: quiet_def)
        with c1 show ?thesis by (rule continues_trans)
      qed
    qed
  qed
qed

lemma quiet_build [simp]: "quiet E (build i a)"
  by (simp add: quiet_def build_def continues_def log_call_def)

lemma quiet_fetch [simp]: "quiet E (fetch_data strm)"
  by (cases strm) (simp add: quiet_def continues_def log_call_def split: outcome.splits)

lemma settles_step:
  assumes "settles E K N"
  shows "length (meanwhile (remote E (reqs @ [q]))) + K * (N - Suc (length reqs))
           \<le> K * (N - length reqs)"
proof (cases "N < Suc (length reqs)")
  case True
  with assms have "meanwhile (remote E (reqs @ [q])) = []"
    by (simp add: settles_def)
  with True show ?thesis by simp
next
  case False
  then have "N - length reqs = Suc (N - Suc (length reqs))" by simp
  moreover from assms have "length (meanwhile (remote E (reqs @ [q]))) \<le> K"
    by (simp add: settles_def)
  ultimately show ?thesis by simp
qed

lemma quiet_execute [simp]: "quiet E (execute_traversal E t)"
proof (cases "transactions E")
  case True
  then show ?thesis
    by (simp add: quiet_def execute_tx continues_def log_call_def)
next
  case False
  have "continues E s (awaited E t s)" for s
    unfolding continues_def
    by (intro exI [of _ "Executed t # map Added (meanwhile (answer E t s))"])
      (simp add: unfold_state settles_step)
  with False show ?thesis
    by (simp add: quiet_def execute_plain)
qed

lemma quiet_map_vertex [simp]: "quiet E (map_vertex_to_ogm r a m)"
  by (simp add: quiet_def map_vertex_to_ogm_def continues_def log_call_def)

lemma quiet_map_edge [simp]: "quiet E (map_edge_to_ogm r a m)"
  by (simp add: quiet_def map_edge_to_ogm_def continues_def log_call_def)

lemma quiet_cache [simp]: "quiet E (cache a)"
  by (simp add: quiet_def cache_def continues_def split: option.splits)

lemma quiet_state: "(\<And>s. quiet E (m s)) \<Longrightarrow> quiet E (\<lambda>s. m s s)"
  by (simp add: quiet_def)

lemma quiet_if: "quiet E m \<Longrightarrow> quiet E n \<Longrightarrow> quiet E (\<lambda>s. if P s then m s else n s)"
  by (simp add: quiet_def)

lemma quiet_save_element:
  assumes "\<And>r m. quiet E (mp r a m)"
  shows "quiet E (save_element E a (build i) (build j) (build k) mp)"
  unfolding save_element_def
  by (intro quiet_and_then quiet_if quiet_build quiet_execute quiet_fetch)
     (auto simp add: quiet_def assms[unfolded quiet_def] quiet_build[unfolded quiet_def]
        raise_def split: list.splits)


lemma quiet_save_vertex: "quiet E (save_vertex E a)"
  unfolding save_vertex_def by (intro quiet_and_then quiet_save_element) simp_all

lemma quiet_save_edge: "quiet E (save_edge E a)"
proof -
  have "quiet E (and_then
      (save_element E a get_edge_by_id add_edge update_edge map_edge_to_ogm) cache)"
    by (intro quiet_and_then quiet_save_element) simp_all
  then show ?thesis
    by (simp add: quiet_def save_edge_def raise_def)
qed

lemma save_continues:
  assumes "save E a s = (r, s')"
  shows "continues E (log_call (Saved a) s) s'"
  using assms quiet_save_vertex [of E a] quiet_save_edge [of E a]
  by (auto simp add: save_def Let_def quiet_def raise_def split: if_splits)

lemma save_log:
  assumes "save E a s = (r, s')"
  shows "\<exists>tr. calls s' = calls s @ Saved a # tr \<and> saved_of tr = [] \<and>
           finalized_of tr = 0 \<and> pending s' = pending s @ added_of tr \<and>
           (\<forall>K N. settles E K N \<longrightarrow>
              length (added_of tr) + K * (N - length (sent s')) \<le> K * (N - length (sent s)))"
  using save_continues [OF assms] by (auto simp add: continues_def log_call_def)

lemma flush_returns:
  assumes "settles E K N"
  shows "\<exists>y. flush E s = Some y"
proof (induction "length (pending s) + K * (N - length (sent s))" arbitrary: s rule: less_induct)
  case less
  show ?case
  proof (cases "pending s")
    case Nil
    then show ?thesis by (subst flush.simps) simp
  next
    case (Cons a q)
    obtain r1 s1 where sv: "save E a (s\<lparr>pending := q\<rparr>) = (r1, s1)"
      by (cases "save E a (s\<lparr>pending := q\<rparr>)")
    from save_log [OF sv] assms obtain tr where
      "pending s1 = q @ added_of tr" and
      "length (added_of tr) + K * (N - length (sent s1)) \<le> K * (N - length (sent s))"
      by auto
    with Cons have "length (pending s1) + K * (N - length (sent s1))
        < length (pending s) + K * (N - length (sent s))"
      by simp
    then obtain y where "flush E s1 = Some y" using less by blast
    with Cons sv show ?thesis
      by (subst flush.simps) (simp split: sum.splits)
  qed
qed

lemma flush_log:
  assumes "flush E s = Some y"
  shows "\<exists>tr. calls (snd y) = calls s @ tr \<and> finalized_of tr = 0 \<and>
           saved_of tr @ pending (snd y) = pending s @ added_of tr \<and>
           (case fst y of
              Inr _ \<Rightarrow> pending (snd y) = []
            | Inl e \<Rightarrow> saved_of tr \<noteq> [] \<and>
                (\<exists>s1. save E (last (saved_of tr)) s1 = (Inl e, snd y)))"
proof -
  define P where "P = (\<lambda>(E :: env) (s :: state) (y :: (error + unit) \<times> state).
     \<exists>tr. calls (snd y) = calls s @ tr \<and> finalized_of tr = 0 \<and>
           saved_of tr @ pending (snd y) = pending s @ added_of tr \<and>
           (case fst y of
              Inr _ \<Rightarrow> pending (snd y) = []
            | Inl e \<Rightarrow> saved_of tr \<noteq> [] \<and>
                (\<exists>s1. save E (last (saved_of tr)) s1 = (Inl e, snd y))))"
  have "P E s y"
  proof (rule flush.raw_induct [where P = P, OF _ assms])
    fix f E s y
    assume ih: "\<And>E s y. f E s = Some y \<Longrightarrow> P E s y"
      and body: "(case pending s of [] \<Rightarrow> Some (Inr (), s)
        | elem # rest \<Rightarrow>
            (case save E elem (s\<lparr>pending := rest\<rparr>) of
               (Inl e, s') \<Rightarrow> Some (Inl e, s')
             | (Inr x, s') \<Rightarrow> f E s')) = Some y"
    show "P E s y"
    proof (cases "pending s")
      case Nil
      with body have "y = (Inr (), s)" by simp
      with Nil show ?thesis by (simp add: P_def)
    next
      case (Cons a q)
      obtain r1 s1 where sv: "save E a (s\<lparr>pending := q\<rparr>) = (r1, s1)"
        by (cases "save E a (s\<lparr>pending := q\<rparr>)")
      from save_log [OF sv] obtain tr1 where
        c1: "calls s1 = calls s @ Saved a # tr1" and n1: "saved_of tr1 = []" and
        z1: "finalized_of tr1 = 0" and p1: "pending s1 = q @ added_of tr1"
        by auto
      show ?thesis
      proof (cases r1)
        case (Inl e)
        with body Cons sv have y: "y = (Inl e, s1)" by simp
        have "calls (snd y) = calls s @ (Saved a # tr1) \<and> finalized_of (Saved a # tr1) = 0 \<and>
              saved_of (Saved a # tr1) @ pending (snd y) = pending s @ added_of (Saved a # tr1) \<and>
              saved_of (Saved a # tr1) \<noteq> [] \<and>
              save E (last (saved_of (Saved a # tr1))) (s\<lparr>pending := q\<rparr>) = (Inl e, snd y)"
          using y c1 n1 z1 p1 Cons sv Inl by simp
        with y show ?thesis unfolding P_def by (auto intro!: exI[of _ "Saved a # tr1"])
      next
        case (Inr x)
        with body Cons sv have "f E s1 = Some y" by simp
        from ih [OF this] obtain tr2 where
          c2: "calls (snd y) = calls s1 @ tr2" and z2: "finalized_of tr2 = 0" and
          q2: "saved_of tr2 @ pending (snd y) = pending s1 @ added_of tr2" and
          k2: "(case fst y of
              Inr _ \<Rightarrow> pending (snd y) = []
            | Inl e \<Rightarrow> saved_of tr2 \<noteq> [] \<and>
                (\<exists>s1. save E (last (saved_of tr2)) s1 = (Inl e, snd y)))"
          unfolding P_def by blast
        let ?tr = "Saved a # tr1 @ tr2"
        have "calls (snd y) = calls s @ ?tr" using c1 c2 by simp
        moreover have "finalized_of ?tr = 0" using z1 z2 by simp
        moreover have "saved_of ?tr @ pending (snd y) = pending s @ added_of ?tr"
          using n1 q2 p1 Cons by simp
        moreover have "(case fst y of
              Inr _ \<Rightarrow> pending (snd y) = []
            | Inl e \<Rightarrow> saved_of ?tr \<noteq> [] \<and>
                (\<exists>s1. save E (last (saved_of ?tr)) s1 = (Inl e, snd y)))"
          using k2 n1 by (auto split: sum.splits)
        ultimately show ?thesis unfolding P_def by blast
      qed
    qed
  qed
  then show ?thesis by (simp add: P_def)
qed

lemma flush_nil: "pending s = [] \<Longrightarrow> flush E s = Some (Inr (), s)"
  by (subst flush.simps) simp

lemma flush_step:
  "pending s = a # q \<Longrightarrow>
   flush E s = (case save E a (s\<lparr>pending := q\<rparr>) of
                  (Inl e, s') \<Rightarrow> Some (Inl e, s')
                | (Inr _, s') \<Rightarrow> flush E s')"
  by (subst flush.simps) simp

lemma save_created:
  assumes "type_attr (heap s a) = ''vertex''" and "id_attr (heap s a) = None"
    and "\<not> transactions E"
    and "remote E (sent s @ [request_of E (Traversal AddVertex (heap s a)) s])
           = \<lparr>outcome = Data (r # rs), meanwhile = mw\<rparr>"
  shows "save E a s =
    (Inr a,
     s\<lparr>pending := pending s @ mw,
       current := (current s)(rid r \<mapsto> a),
       heap := (heap s)(a := merge_row r (mapping_attr (heap s a)) (heap s a)),
       sent := sent s @ [request_of E (Traversal AddVertex (heap s a)) s],
       calls := calls s @ [Saved a, Built (Traversal AddVertex (heap s a)),
                  Executed (Traversal AddVertex (heap s a))] @ map Added mw @
                  [Fetched, Mapped r a]\<rparr>)"
  using assms
  by (simp add: save_def save_vertex_def and_then_def[of "save_element _ _ _ _ _ _"]
      save_element_new round_trip_plain Let_def unfold_state map_vertex_to_ogm_def cache_def
      merge_row_def)

lemma save_create_empty:
  assumes "type_attr (heap s a) = ''vertex''" and "id_attr (heap s a) = None"
    and "\<not> transactions E"
    and "remote E (sent s @ [request_of E (Traversal AddVertex (heap s a)) s])
           = \<lparr>outcome = Data [], meanwhile = mw\<rparr>"
  shows "save E a s =
    (Inl IndexError,
     s\<lparr>pending := pending s @ mw,
       sent := sent s @ [request_of E (Traversal AddVertex (heap s a)) s],
       calls := calls s @ [Saved a, Built (Traversal AddVertex (heap s a)),
                  Executed (Traversal AddVertex (heap s a))] @ map Added mw @ [Fetched]\<rparr>)"
  using assms
  by (simp add: save_def save_vertex_def and_then_def[of "save_element _ _ _ _ _ _"]
      save_element_new round_trip_plain Let_def unfold_state raise_def)

lemma drying_env_simps [simp]:
  "transactions drying_env = False" "parse_traversal drying_env = parse_example"
  "remote drying_env reqs = \<lparr>outcome = Data (if length reqs = 1 then [row7] else []), meanwhile = []\<rparr>"
  by (simp_all add: drying_env_def)

lemma busy_env_simps [simp]:
  "transactions busy_env = False" "parse_traversal busy_env = parse_example"
  "remote busy_env reqs = \<lparr>outcome = Data [row7], meanwhile = (if length reqs = 1 then [3] else [])\<rparr>"
  by (simp_all add: busy_env_def)

lemma drying_run:
  "\<exists>s'. flush drying_env (add [0, 1, 2] (fresh vertex_new)) = Some (Inl IndexError, s') \<and>
      saved_of (calls s') = [0, 1] \<and> pending s' = [2]"
  by (simp add: add_eq fresh_def init_def flush_step save_created save_create_empty
      vertex_new_def)

lemma busy_run:
  "\<exists>s'. flush busy_env (add [0, 1, 2] (fresh vertex_new)) = Some (Inr (), s') \<and>
      saved_of (calls s') = [0, 1, 2, 3] \<and> pending s' = []"
  by (simp add: add_eq fresh_def init_def flush_step flush_nil save_created vertex_new_def)

lemma settles_drying: "settles drying_env 0 0"
  by (simp add: settles_def)

lemma settles_busy: "settles busy_env 1 1"
  by (simp add: settles_def)

text \<open>
  C4. \<^verbatim>\<open>flush\<close> returns whenever the other tasks settle, that is, when they add a
  bounded number of elements per request and none after some number of requests; so it
  returns also when elements are added during the flush. Whenever it returns, the elements
  it has called \<^verbatim>\<open>save\<close> on, followed by the elements still pending, are the queue it
  started with followed by the elements added during the flush, in this order: the saves
  happen in FIFO order, one after the other, and cover what is added meanwhile. On normal
  return the queue is empty, so every element of the initial queue and every element added
  during the flush has been saved. A save of the first pending element that fails ends the
  flush at once: its failure is the result of \<^verbatim>\<open>flush\<close>, in the state that save ended in,
  and no other element is saved; a save that succeeds is followed by the flush of what is
  pending then. For a queue \<open>[A, B, C]\<close>: when the save of \<open>A\<close> succeeds and the save of
  \<open>B\<close> fails, \<^verbatim>\<open>flush\<close> fails with the failure of that save, \<^verbatim>\<open>save\<close> has been called
  on \<open>A\<close> and \<open>B\<close> only, \<open>B\<close> is no longer in the queue and \<open>C\<close> is still its first
  element.
\<close>

theorem flush_fifo:
  "(settles E K N \<longrightarrow> (\<exists>y. flush E s = Some y)) \<and>
   (\<forall>r s'. flush E s = Some (r, s') \<longrightarrow>
      (\<exists>tr. calls s' = calls s @ tr \<and>
            saved_of tr @ pending s' = pending s @ added_of tr \<and>
            (case r of
               Inr _ \<Rightarrow> pending s' = []
             | Inl e \<Rightarrow> saved_of tr \<noteq> [] \<and>
                 (\<exists>s1. save E (last (saved_of tr)) s1 = (Inl e, s'))))) \<and>
   (\<forall>a q e s1. pending s = a # q \<and> save E a (s\<lparr>pending := q\<rparr>) = (Inl e, s1) \<longrightarrow>
      flush E s = Some (Inl e, s1)) \<and>
   (\<forall>a q x s1. pending s = a # q \<and> save E a (s\<lparr>pending := q\<rparr>) = (Inr x, s1) \<longrightarrow>
      flush E s = flush E s1) \<and>
   (\<forall>A B C x e s1 s2.
      pending s = [A, B, C] \<and>
      save E A (s\<lparr>pending := [B, C]\<rparr>) = (Inr x, s1) \<and>
      save E B (s1\<lparr>pending := tl (pending s1)\<rparr>) = (Inl e, s2) \<longrightarrow>
      flush E s = Some (Inl e, s2) \<and>
      saved_of (calls s2) = saved_of (calls s) @ [A, B] \<and>
      (\<exists>new. pending s2 = C # new))"
proof -
  have 1: "\<exists>y. flush E s = Some y" if "settles E K N"
    using that by (rule flush_returns)
  have 2: "\<exists>tr. calls s' = calls s @ tr \<and>
            saved_of tr @ pending s' = pending s @ added_of tr \<and>
            (case r of
               Inr _ \<Rightarrow> pending s' = []
             | Inl e \<Rightarrow> saved_of tr \<noteq> [] \<and>
                 (\<exists>s1. save E (last (saved_of tr)) s1 = (Inl e, s')))"
    if "flush E s = Some (r, s')" for r s'
    using flush_log [OF that] by (cases r) auto
  have 3: "flush E s = Some (Inl e, s1)"
    if "pending s = a # q \<and> save E a (s\<lparr>pending := q\<rparr>) = (Inl e, s1)" for a q e s1
    using that by (simp add: flush_step)
  have 4: "flush E s = flush E s1"
    if "pending s = a # q \<and> save E a (s\<lparr>pending := q\<rparr>) = (Inr x, s1)" for a q x s1
    using that by (simp add: flush_step)
  have 5: "flush E s = Some (Inl e, s2) \<and>
      saved_of (calls s2) = saved_of (calls s) @ [A, B] \<and> (\<exists>new. pending s2 = C # new)"
    if h: "pending s = [A, B, C] \<and>
      save E A (s\<lparr>pending := [B, C]\<rparr>) = (Inr x, s1) \<and>
      save E B (s1\<lparr>pending := tl (pending s1)\<rparr>) = (Inl e, s2)" for A B C x e s1 s2
  proof -
    from h have p: "pending s = [A, B, C]"
      and a: "save E A (s\<lparr>pending := [B, C]\<rparr>) = (Inr x, s1)"
      and b: "save E B (s1\<lparr>pending := tl (pending s1)\<rparr>) = (Inl e, s2)"
      by simp_all
    from save_log [OF a] obtain tr1 where
      c1: "calls s1 = calls s @ Saved A # tr1" "saved_of tr1 = []"
        "pending s1 = [B, C] @ added_of tr1"
      by auto
    from save_log [OF b] c1 obtain tr2 where
      c2: "calls s2 = calls s1 @ Saved B # tr2" "saved_of tr2 = []"
        "pending s2 = (C # added_of tr1) @ added_of tr2"
      by auto
    from p a have "flush E s = flush E s1" by (simp add: flush_step)
    also from c1 b have "\<dots> = Some (Inl e, s2)" by (simp add: flush_step)
    finally have "flush E s = Some (Inl e, s2)" .
    with c1 c2 show ?thesis by simp
  qed
  from 1 2 3 4 5 show ?thesis by blast
qed

theorem flush_fifo_witness:
  "settles drying_env 0 0 \<and> settles busy_env 1 1 \<and>
   (\<exists>s1 s2. save drying_env 0 (add [0, 1, 2] (fresh vertex_new)\<lparr>pending := [1, 2]\<rparr>) = (Inr 0, s1) \<and>
      save drying_env 1 (s1\<lparr>pending := tl (pending s1)\<rparr>) = (Inl IndexError, s2) \<and>
      flush drying_env (add [0, 1, 2] (fresh vertex_new)) = Some (Inl IndexError, s2) \<and>
      saved_of (calls s2) = [0, 1] \<and> pending s2 = [2]) \<and>
   (\<exists>s'. flush busy_env (add [0, 1, 2] (fresh vertex_new)) = Some (Inr (), s') \<and>
      saved_of (calls s') = [0, 1, 2, 3] \<and> added_of (calls s') = [0, 1, 2, 3] \<and>
      pending s' = [])"
proof -
  let ?s = "add [0, 1, 2] (fresh vertex_new)"
  have s0: "calls ?s = [Added 0, Added 1, Added 2]" "pending ?s = [0, 1, 2]"
    by (simp_all add: add_eq)
  obtain s1 where a: "save drying_env 0 (?s\<lparr>pending := [1, 2]\<rparr>) = (Inr 0, s1)"
    and p1: "pending s1 = [1, 2]" and h1: "heap s1 1 = vertex_new" and n1: "sent s1 \<noteq> []"
    by (simp add: add_eq fresh_def init_def save_created vertex_new_def)
  have "\<exists>s2. save drying_env 1 (s1\<lparr>pending := tl (pending s1)\<rparr>) = (Inl IndexError, s2)"
    using h1 n1 by (simp add: save_create_empty vertex_new_def)
  then obtain s2 where
    b: "save drying_env 1 (s1\<lparr>pending := tl (pending s1)\<rparr>) = (Inl IndexError, s2)" ..
  from flush_fifo [of drying_env 0 0 ?s] s0 a b
  have d: "flush drying_env ?s = Some (Inl IndexError, s2) \<and>
      saved_of (calls s2) = saved_of (calls ?s) @ [0, 1] \<and> (\<exists>new. pending s2 = 2 # new)"
    by blast
  from drying_run d have d2: "pending s2 = [2]" by auto
  from flush_fifo [of busy_env 1 1 ?s] settles_busy
  obtain y where "flush busy_env ?s = Some y" by blast
  with busy_run obtain s' where
    f: "flush busy_env ?s = Some (Inr (), s')" and
    f1: "saved_of (calls s') = [0, 1, 2, 3]"
    by auto
  from flush_fifo [of busy_env 1 1 ?s] f obtain tr where
    t: "calls s' = calls ?s @ tr" "saved_of tr @ pending s' = pending ?s @ added_of tr"
      "pending s' = []"
    by auto
  with f1 s0 have "added_of (calls s') = [0, 1, 2, 3]" by simp
  with a b d d2 f f1 t s0 settles_drying settles_busy show ?thesis by auto
qed

section \<open>Committing\<close>

text \<open>
  C9, as the code has it. \<^verbatim>\<open>commit\<close> flushes the pending queue and never returns
  normally. It ends whenever the flush ends, in exactly the state the flush ended in, and
  it never calls \<^verbatim>\<open>tx\<close>, the transaction finalize step, on any backend. A failure of the
  flush is the failure of \<^verbatim>\<open>commit\<close>. When the flush returns and the backend does not
  advertise transactions, the queue is drained and \<^verbatim>\<open>commit\<close> raises
  NotImplementedError.
\<close>

theorem commit_flushes_then_raises:
  "(\<forall>r s'. commit E s = Some (r, s') \<longrightarrow>
      (\<exists>e. r = Inl e) \<and> (\<exists>r1. flush E s = Some (r1, s')) \<and>
      finalized_of (calls s') = finalized_of (calls s)) \<and>
   (\<forall>y. flush E s = Some y \<longrightarrow> (\<exists>y'. commit E s = Some y')) \<and>
   (\<forall>s1. \<not> transactions E \<and> flush E s = Some (Inr (), s1) \<longrightarrow>
      commit E s = Some (Inl NotImplementedError, s1) \<and> pending s1 = []) \<and>
   (\<forall>e s1. flush E s = Some (Inl e, s1) \<longrightarrow> commit E s = Some (Inl e, s1))"
proof -
  have 0: "finalized_of (calls s1) = finalized_of (calls s)" if "flush E s = Some (r1, s1)"
    for r1 s1
    using flush_log [OF that] by auto
  have 1: "(\<exists>e. r = Inl e) \<and> (\<exists>r1. flush E s = Some (r1, s'))"
    if "commit E s = Some (r, s')" for r s'
    using that
    by (auto simp add: commit_def call_use_session_def raise_def return_def and_then_def
        split: option.splits sum.splits prod.splits if_splits)
  have 2: "\<exists>y'. commit E s = Some y'" if "flush E s = Some y" for y
    using that by (cases y) (simp add: commit_def split: sum.splits)
  have 3: "commit E s = Some (Inl NotImplementedError, s1) \<and> pending s1 = []"
    if a: "\<not> transactions E \<and> flush E s = Some (Inr (), s1)" for s1
  proof -
    from a have "commit E s = Some (Inl NotImplementedError, s1)"
      by (simp add: commit_def raise_def)
    moreover from a flush_log [of E s "(Inr (), s1)"] have "pending s1 = []" by auto
    ultimately show ?thesis by simp
  qed
  have 4: "commit E s = Some (Inl e, s1)" if "flush E s = Some (Inl e, s1)" for e s1
    using that by (simp add: commit_def)
  from 0 1 2 3 4 show ?thesis by blast
qed

theorem commit_flushes_then_raises_witness:
  "\<not> transactions busy_env \<and>
   (\<exists>s1. flush busy_env (add [0, 1, 2] (fresh vertex_new)) = Some (Inr (), s1) \<and>
      commit busy_env (add [0, 1, 2] (fresh vertex_new)) = Some (Inl NotImplementedError, s1) \<and>
      pending s1 = [] \<and> finalized_of (calls s1) = 0) \<and>
   (\<exists>s1. flush drying_env (add [0, 1, 2] (fresh vertex_new)) = Some (Inl IndexError, s1) \<and>
      commit drying_env (add [0, 1, 2] (fresh vertex_new)) = Some (Inl IndexError, s1)) \<and>
   transactions (tx_env reply7) \<and>
   (\<exists>e. commit (tx_env reply7) (fresh vertex_new) = Some (Inl e, fresh vertex_new)) \<and>
   finalized_of (calls (fresh vertex_new)) = 0"
proof -
  let ?s = "add [0, 1, 2] (fresh vertex_new)"
  have z: "finalized_of (calls ?s) = 0" by (simp add: add_eq)
  from busy_run obtain s1 where b: "flush busy_env ?s = Some (Inr (), s1)" by auto
  from drying_run obtain s2 where d: "flush drying_env ?s = Some (Inl IndexError, s2)" by auto
  have t: "\<not> transactions busy_env" by simp
  from commit_flushes_then_raises [of busy_env ?s] t b
  have 1: "commit busy_env ?s = Some (Inl NotImplementedError, s1) \<and> pending s1 = []" by blast
  with commit_flushes_then_raises [of busy_env ?s] z
  have 2: "finalized_of (calls s1) = 0" by auto
  from commit_flushes_then_raises [of drying_env ?s] d
  have 3: "commit drying_env ?s = Some (Inl IndexError, s2)" by blast
  have f: "flush (tx_env reply7) (fresh vertex_new) = Some (Inr (), fresh vertex_new)"
    by (simp add: flush_nil)
  with commit_flushes_then_raises [of "tx_env reply7" "fresh vertex_new"]
  obtain y' where c: "commit (tx_env reply7) (fresh vertex_new) = Some y'" by blast
  with commit_flushes_then_raises [of "tx_env reply7" "fresh vertex_new"] f
  have 4: "\<exists>e. commit (tx_env reply7) (fresh vertex_new) = Some (Inl e, fresh vertex_new)"
    by (cases y') auto
  from t b d 1 2 3 4 show ?thesis by auto
qed

text \<open>
  C9, as the spec states it, fails on a backend without transactions and an empty queue:
  \<^verbatim>\<open>commit\<close> does not return normally, it raises NotImplementedError.
\<close>

theorem commit_returns_counterexample:
  "\<not> transactions (plain_env reply7) \<and> pending (fresh vertex_new) = [] \<and>
   commit (plain_env reply7) (fresh vertex_new) = Some (Inl NotImplementedError, fresh vertex_new)"
  by (simp add: commit_def flush_nil raise_def)

end
